theory Spec2Isabelle
  imports Main
begin

section \<open>Dialect provider base class (dialect/providers/base.py)\<close>

text \<open>
  Python \<open>str\<close> values are modelled as \<open>string\<close> (lists of \<open>char\<close>). The case
  mappings below are \<open>str.lower\<close>, \<open>str.upper\<close> and \<open>str.capitalize\<close> restricted to
  ASCII strings (\<open>is_ascii\<close>), where a character is one byte and \<open>len\<close> is the length
  of the list; every statement that depends on what they compute is made for ASCII
  strings only. A \<open>dict\<close> whose order is never observed is a map; the query parameters
  of a URL, whose order shows in the result, are an association list.
\<close>

subsection \<open>String primitives used by the provider\<close>

definition is_ascii :: "string \<Rightarrow> bool" where
  "is_ascii s = list_all (\<lambda>c. (of_char c :: nat) < 128) s"

definition lower_char :: "char \<Rightarrow> char" where
  "lower_char c =
     (let n = (of_char c :: nat) in if 65 \<le> n \<and> n \<le> 90 then char_of (n + 32) else c)"

definition upper_char :: "char \<Rightarrow> char" where
  "upper_char c =
     (let n = (of_char c :: nat) in if 97 \<le> n \<and> n \<le> 122 then char_of (n - 32) else c)"

definition lower :: "string \<Rightarrow> string" where
  "lower s = map lower_char s"

definition upper :: "string \<Rightarrow> string" where
  "upper s = map upper_char s"

text \<open>\<open>str.capitalize\<close>: first character upper-cased, the rest lower-cased.\<close>

fun capitalize :: "string \<Rightarrow> string" where
  "capitalize [] = []"
| "capitalize (c # cs) = upper_char c # lower cs"

text \<open>\<open>str.replace(old, new)\<close> for single-character \<open>old\<close> and \<open>new\<close>.\<close>

definition replace_char :: "char \<Rightarrow> char \<Rightarrow> string \<Rightarrow> string" where
  "replace_char old new s = map (\<lambda>c. if c = old then new else c) s"

text \<open>
  \<open>str.split(sep)\<close> for a single-character separator: always at least one piece,
  empty pieces are kept.
\<close>

fun split :: "char \<Rightarrow> string \<Rightarrow> string list" where
  "split sep [] = [[]]"
| "split sep (c # cs) =
     (if c = sep then [] # split sep cs
      else (case split sep cs of
              [] \<Rightarrow> [[c]]
            | w # ws \<Rightarrow> (c # w) # ws))"

text \<open>\<open>sep.join(parts)\<close>.\<close>

fun join :: "string \<Rightarrow> string list \<Rightarrow> string" where
  "join sep [] = []"
| "join sep [x] = x"
| "join sep (x # y # ys) = x @ sep @ join sep (y # ys)"

text \<open>\<open>str.startswith(prefix)\<close>.\<close>

definition startswith :: "string \<Rightarrow> string \<Rightarrow> bool" where
  "startswith s p = (take (length p) s = p)"

subsection \<open>Provider state\<close>

text \<open>
  Exceptions: the one the base class raises itself, and any other, by its name, that a
  function called by the provider lets through.
\<close>

datatype py_exception = NotImplementedError | Raised string

datatype ProviderErrorCode =
    UNEXPECTED | NETWORK | EMPTY | API_KEY_REQUIRED | API_KEY_INVALID | INVALID_LANG_CODE
  | BATCH_SIZE_EXCEEDED | CHARACTERS_LIMIT_EXCEEDED | SERVICE_LIMIT_REACHED
  | TRANSLATION_FAILED | TTS_FAILED

record ProviderError =
  err_code :: ProviderErrorCode
  err_message :: string

record Translation =
  trans_text :: string
  original :: "string \<times> string \<times> string"
  detected :: "string option"
  mistakes :: "string option \<times> string option"
  pronunciation :: "string option \<times> string option"

text \<open>
  Modelled from the spec: the persistent key-value store behind \<open>self.settings\<close>
  (\<open>Gio.Settings\<close>, an external collaborator). It holds strings and ordered string
  lists by key; a key that was never written reads as the empty value.
\<close>

record Settings =
  strings :: "string \<rightharpoonup> string"
  strvs :: "string \<rightharpoonup> string list"

definition get_string :: "Settings \<Rightarrow> string \<Rightarrow> string" where
  "get_string s k = (case strings s k of None \<Rightarrow> [] | Some v \<Rightarrow> v)"

definition set_string :: "Settings \<Rightarrow> string \<Rightarrow> string \<Rightarrow> Settings" where
  "set_string s k v = s\<lparr>strings := (strings s)(k \<mapsto> v)\<rparr>"

definition get_strv :: "Settings \<Rightarrow> string \<Rightarrow> string list" where
  "get_strv s k = (case strvs s k of None \<Rightarrow> [] | Some v \<Rightarrow> v)"

definition set_strv :: "Settings \<Rightarrow> string \<Rightarrow> string list \<Rightarrow> Settings" where
  "set_strv s k v = s\<lparr>strvs := (strvs s)(k \<mapsto> v)\<rparr>"

text \<open>
  The instance attributes set by \<open>BaseProvider.__init__\<close>, together with the value of
  the \<open>lang_aliases\<close> property, which \<open>BaseProvider\<close> defines as \<open>{}\<close> and a
  concrete provider overrides.
\<close>

record Provider =
  languages :: "string list"
  tts_languages :: "string list"
  nonstandard_langs :: "string \<rightharpoonup> string"
  languages_names :: "string \<rightharpoonup> string"
  chars_limit :: int
  history :: "Translation list"
  settings :: Settings
  lang_aliases :: "string \<rightharpoonup> string"

definition init :: "(string \<rightharpoonup> string) \<Rightarrow> Settings \<Rightarrow> Provider" where
  "init aliases store =
     \<lparr>languages = [], tts_languages = [], nonstandard_langs = Map.empty,
      languages_names = Map.empty, chars_limit = - 1, history = [], settings = store,
      lang_aliases = aliases\<rparr>"

subsection \<open>Language code normalization\<close>

text \<open>
  \<open>normalize_lang_code\<close>. The global table \<open>dialect.define.LANG_ALIASES\<close> is defined in
  another module and is the parameter \<open>LANG_ALIASES\<close>;
  \<open>{**LANG_ALIASES, **self.lang_aliases}\<close> is \<open>LANG_ALIASES ++ lang_aliases p\<close>.
\<close>

definition normalize_lang_code :: "(string \<rightharpoonup> string) \<Rightarrow> Provider \<Rightarrow> string \<Rightarrow> string" where
  "normalize_lang_code LANG_ALIASES p code0 =
     (let code1 = lower (replace_char CHR ''_'' CHR ''-'' code0);
          codes = split CHR ''-'' code1;
          code2 =
            (if length codes = 2 then
               (let codes' =
                      (if length (codes ! 1) = 4 then codes[1 := capitalize (codes ! 1)]
                       else if length (codes ! 1) = 2 then codes[1 := upper (codes ! 1)]
                       else codes)
                in join ''-'' codes')
             else code1);
          aliases = LANG_ALIASES ++ lang_aliases p
      in (case aliases code2 of Some a \<Rightarrow> a | None \<Rightarrow> code2))"

subsection \<open>Language registry\<close>

text \<open>
  \<open>add_lang(original_code, name=None, trans=True, tts=False)\<close>, with every argument
  given; the flag \<open>trans\<close> is written \<open>trans'\<close>.
\<close>

definition add_lang ::
  "(string \<rightharpoonup> string) \<Rightarrow> Provider \<Rightarrow> string \<Rightarrow> string option \<Rightarrow> bool \<Rightarrow> bool \<Rightarrow> Provider" where
  "add_lang LANG_ALIASES p original_code name trans' tts =
     (let ncode = normalize_lang_code LANG_ALIASES p original_code;
          p1 = (if trans' then p\<lparr>languages := languages p @ [ncode]\<rparr> else p);
          p2 = (if tts then p1\<lparr>tts_languages := tts_languages p1 @ [ncode]\<rparr> else p1);
          p3 = (if ncode \<noteq> original_code \<and> nonstandard_langs p2 ncode = None
                then p2\<lparr>nonstandard_langs := (nonstandard_langs p2)(ncode \<mapsto> original_code)\<rparr>
                else p2)
      in (case name of
            None \<Rightarrow> p3
          | Some n \<Rightarrow>
              if languages_names p3 ncode = None
              then p3\<lparr>languages_names := (languages_names p3)(ncode \<mapsto> n)\<rparr>
              else p3))"

text \<open>A sequence of \<open>add_lang\<close> calls, each given by its four arguments.\<close>

fun add_langs ::
  "(string \<rightharpoonup> string) \<Rightarrow> Provider \<Rightarrow> (string \<times> string option \<times> bool \<times> bool) list \<Rightarrow> Provider" where
  "add_langs LANG_ALIASES p [] = p"
| "add_langs LANG_ALIASES p ((original_code, name, trans', tts) # calls) =
     add_langs LANG_ALIASES (add_lang LANG_ALIASES p original_code name trans' tts) calls"

text \<open>\<open>dict.get(key, default)\<close>.\<close>

definition dict_get :: "('k \<rightharpoonup> 'v) \<Rightarrow> 'k \<Rightarrow> 'v \<Rightarrow> 'v" where
  "dict_get d k dflt = (case d k of None \<Rightarrow> dflt | Some v \<Rightarrow> v)"

text \<open>
  \<open>denormalize_lang(*codes)\<close> returns a \<open>str\<close> for one code and a \<open>tuple\<close> otherwise;
  the \<open>for\<close> loop appends to \<open>result\<close>.
\<close>

datatype denormalized = Str string | Tuple "string list"

fun denormalize_loop :: "Provider \<Rightarrow> string list \<Rightarrow> string list \<Rightarrow> string list" where
  "denormalize_loop p [] result = result"
| "denormalize_loop p (c # cs) result =
     denormalize_loop p cs (result @ [dict_get (nonstandard_langs p) c c])"

definition denormalize_lang :: "Provider \<Rightarrow> string list \<Rightarrow> denormalized" where
  "denormalize_lang p codes =
     (if length codes = 1 then Str (dict_get (nonstandard_langs p) (codes ! 0) (codes ! 0))
      else Tuple (denormalize_loop p codes []))"

text \<open>
  \<open>BaseProvider.get_lang_name\<close>. The function \<open>dialect.languages.get_lang_name\<close> it calls
  first is defined in another module and is the parameter \<open>locale_name\<close>: it returns
  \<open>None\<close> or a name, or raises. The call is not guarded, so what it raises leaves
  \<open>BaseProvider.get_lang_name\<close> as well.
\<close>

definition get_lang_name ::
  "(string \<Rightarrow> py_exception + string option) \<Rightarrow> Provider \<Rightarrow> string \<Rightarrow> py_exception + string" where
  "get_lang_name locale_name p c =
     (case locale_name c of
        Inl e \<Rightarrow> Inl e
      | Inr None \<Rightarrow> Inr (dict_get (languages_names p) c c)
      | Inr (Some n) \<Rightarrow> Inr n)"

subsection \<open>Settings accessors\<close>

definition defaults_src_langs :: "string list" where
  "defaults_src_langs = [''en'', ''fr'', ''es'', ''de'']"

text \<open>\<open>a or b\<close> on lists: \<open>b\<close> when \<open>a\<close> is empty.\<close>

definition src_langs :: "Provider \<Rightarrow> string list" where
  "src_langs p =
     (let v = get_strv (settings p) ''src-langs'' in if v \<noteq> [] then v else defaults_src_langs)"

definition set_src_langs :: "Provider \<Rightarrow> string list \<Rightarrow> Provider" where
  "set_src_langs p v = p\<lparr>settings := set_strv (settings p) ''src-langs'' v\<rparr>"

definition reset_src_langs :: "Provider \<Rightarrow> Provider" where
  "reset_src_langs p = set_src_langs p []"

subsection \<open>URL composition\<close>

text \<open>
  \<open>urllib.parse.urlencode\<close> with its default arguments, on \<open>str\<close> keys and values given
  as their UTF-8 bytes: each is passed through \<open>quote_plus\<close>, which keeps letters, digits
  and \<open>_.-~\<close>, writes a space as \<open>+\<close> and every other byte as \<open>%XX\<close>.
\<close>

definition always_safe :: "char \<Rightarrow> bool" where
  "always_safe c =
     (c \<in> set ''ABCDEFGHIJKLMNOPQRSTUVWXYZabcdefghijklmnopqrstuvwxyz0123456789_.-~'')"

definition hex_digit :: "nat \<Rightarrow> char" where
  "hex_digit n = ''0123456789ABCDEF'' ! (n mod 16)"

definition quote_byte :: "char \<Rightarrow> string" where
  "quote_byte c =
     (if always_safe c then [c]
      else if c = CHR '' '' then ''+''
      else [CHR ''%'', hex_digit ((of_char c :: nat) div 16), hex_digit (of_char c :: nat)])"

definition quote_plus :: "string \<Rightarrow> string" where
  "quote_plus s = concat (map quote_byte s)"

fun urlencode_loop :: "(string \<times> string) list \<Rightarrow> string list \<Rightarrow> string list" where
  "urlencode_loop [] l = l"
| "urlencode_loop ((k, v) # query) l =
     urlencode_loop query (l @ [quote_plus k @ ''='' @ quote_plus v])"

definition urlencode :: "(string \<times> string) list \<Rightarrow> string" where
  "urlencode query = join ''&'' (urlencode_loop query [])"

definition format_url :: "string \<Rightarrow> string \<Rightarrow> (string \<times> string) list \<Rightarrow> bool \<Rightarrow> string" where
  "format_url url path params http =
     (let path1 = (if \<not> startswith path ''/'' then ''/'' @ path else path);
          protocol0 = ''https://'';
          protocol = (if startswith url ''localhost:'' \<or> http then ''http://'' else protocol0);
          params_str = urlencode params;
          params_str1 = (if params_str \<noteq> [] then ''?'' @ params_str else params_str)
      in protocol @ url @ path1 @ params_str1)"

subsection \<open>The translate operation\<close>

text \<open>
  What a call does is recorded as the list of callbacks and transport requests it makes,
  in order, and how it ends: by returning or by raising. \<open>BaseProvider.translate\<close> has
  the single statement \<open>raise NotImplementedError()\<close>; it is the method every provider
  overrides.
\<close>

datatype call = OnDone Translation | OnFail ProviderError | Transport

definition translate ::
  "Provider \<Rightarrow> string \<Rightarrow> string \<Rightarrow> string \<Rightarrow> call list \<times> (py_exception + unit)" where
  "translate p text_in src dest = ([], Inl NotImplementedError)"

definition on_fail_calls :: "call list \<Rightarrow> ProviderError list" where
  "on_fail_calls cs = concat (map (\<lambda>c. case c of OnFail e \<Rightarrow> [e] | _ \<Rightarrow> []) cs)"

definition on_done_calls :: "call list \<Rightarrow> Translation list" where
  "on_done_calls cs = concat (map (\<lambda>c. case c of OnDone t \<Rightarrow> [t] | _ \<Rightarrow> []) cs)"

text \<open>
  Modelled from the spec: the \<open>translate\<close> of a concrete provider, that is, of a class
  that overrides \<open>BaseProvider.translate\<close>; these classes are in other modules. By
  sections 4.4 and 8 of the specification such a method fails with \<open>EMPTY\<close> when the text
  is empty, before any network interaction; fails with \<open>CHARACTERS_LIMIT_EXCEEDED\<close> when
  the text is longer than \<open>chars_limit\<close> and \<open>chars_limit\<close> is not the sentinel \<open>-1\<close>,
  without invoking the transport; and otherwise uses the transport, which ends in one
  classified error (\<open>INVALID_LANG_CODE\<close>, \<open>API_KEY_REQUIRED\<close>, \<open>NETWORK\<close>,
  \<open>TRANSLATION_FAILED\<close>, ...) or in one translation. It calls exactly one of \<open>on_done\<close>
  and \<open>on_fail\<close>, once, and raises nothing. The outcome of the exchange with the service
  is the parameter \<open>exchange\<close>; the text is a list of characters of any kind, of which
  only the number matters.
\<close>

definition provider_translate ::
  "(Provider \<Rightarrow> 'c list \<Rightarrow> string \<Rightarrow> string \<Rightarrow> ProviderError + Translation)
     \<Rightarrow> Provider \<Rightarrow> 'c list \<Rightarrow> string \<Rightarrow> string \<Rightarrow> call list \<times> (py_exception + unit)" where
  "provider_translate exchange p text_in src dest =
     (if text_in = [] then
        ([OnFail \<lparr>err_code = EMPTY, err_message = []\<rparr>], Inr ())
      else if chars_limit p \<noteq> - 1 \<and> chars_limit p < int (length text_in) then
        ([OnFail \<lparr>err_code = CHARACTERS_LIMIT_EXCEEDED, err_message = []\<rparr>], Inr ())
      else
        (case exchange p text_in src dest of
           Inl e \<Rightarrow> ([Transport, OnFail e], Inr ())
         | Inr t \<Rightarrow> ([Transport, OnDone t], Inr ())))"

subsection \<open>The normalizer as the specification words it\<close>

text \<open>
  Underscores become hyphens and the code is lower-cased; if it splits at hyphens into
  exactly two parts, a second part of four characters is capitalized, one of two
  characters is upper-cased, any other is left as it is, and the parts are put together
  with a hyphen. The alias table is consulted afterwards, on that result.
\<close>

definition spec_structural :: "string \<Rightarrow> string" where
  "spec_structural x =
     (let c = lower (replace_char CHR ''_'' CHR ''-'' x) in
      case split CHR ''-'' c of
        [a, b] \<Rightarrow>
          a @ ''-'' @
            (if length b = 4 then upper_char (hd b) # lower (tl b)
             else if length b = 2 then upper b
             else b)
      | _ \<Rightarrow> c)"

definition spec_alias :: "(string \<rightharpoonup> string) \<Rightarrow> string \<Rightarrow> string" where
  "spec_alias aliases c = (case aliases c of None \<Rightarrow> c | Some a \<Rightarrow> a)"

text \<open>What \<open>replace('_', '-')\<close> followed by \<open>lower()\<close> does to one character.\<close>

definition fold_char :: "char \<Rightarrow> char" where
  "fold_char c = lower_char (if c = CHR ''_'' then CHR ''-'' else c)"

section \<open>Properties\<close>

subsection \<open>Characters and strings\<close>

text \<open>
  The lemmas of this and the next subsection are about the functions as defined above,
  on all strings; the claims apply them to ASCII strings, where these functions are the
  Python ones.
\<close>

lemma of_char_lower:
  "(of_char (lower_char c) :: nat) =
     (if 65 \<le> (of_char c :: nat) \<and> (of_char c :: nat) \<le> 90 then of_char c + 32 else of_char c)"
  by (auto simp: lower_char_def Let_def)

lemma of_char_upper:
  "(of_char (upper_char c) :: nat) =
     (if 97 \<le> (of_char c :: nat) \<and> (of_char c :: nat) \<le> 122 then of_char c - 32 else of_char c)"
  by (auto simp: upper_char_def Let_def)

lemma of_char_fold:
  "(of_char (fold_char c) :: nat) =
     (if (of_char c :: nat) = 95 then 45
      else if 65 \<le> (of_char c :: nat) \<and> (of_char c :: nat) \<le> 90 then of_char c + 32
      else of_char c)"
proof (cases "c = CHR ''_''")
  case True
  then show ?thesis by (simp add: fold_char_def of_char_lower)
next
  case False
  then have "(of_char c :: nat) \<noteq> of_char CHR ''_''" by (simp only: of_char_eq_iff not_False_eq_True)
  then have "(of_char c :: nat) \<noteq> 95" by simp
  with False show ?thesis by (simp add: fold_char_def of_char_lower)
qed

lemma fold_char_upper: "fold_char (upper_char c) = fold_char c"
proof -
  have "(of_char (fold_char (upper_char c)) :: nat) = of_char (fold_char c)"
    unfolding of_char_fold of_char_upper by (simp; arith)
  then show ?thesis by (simp only: of_char_eq_iff)
qed

lemma fold_char_lower: "fold_char (lower_char c) = fold_char c"
proof -
  have "(of_char (fold_char (lower_char c)) :: nat) = of_char (fold_char c)"
    unfolding of_char_fold of_char_lower by simp
  then show ?thesis by (simp only: of_char_eq_iff)
qed

lemma fold_char_idem: "fold_char (fold_char c) = fold_char c"
proof -
  have "(of_char (fold_char (fold_char c)) :: nat) = of_char (fold_char c)"
    unfolding of_char_fold by simp
  then show ?thesis by (simp only: of_char_eq_iff)
qed

lemma fold_char_hyphen: "fold_char CHR ''-'' = CHR ''-''"
  by (simp add: fold_char_def lower_char_def)

lemma lower_replace_fold: "lower (replace_char CHR ''_'' CHR ''-'' s) = map fold_char s"
  by (simp add: lower_def replace_char_def fold_char_def)

lemma split_not_Nil: "split sep s \<noteq> []"
  by (induction s) (auto split: list.splits)

lemma join_split: "join [sep] (split sep s) = s"
proof (induction s)
  case Nil
  show ?case by simp
next
  case (Cons c cs)
  show ?case
  proof (cases "split sep cs")
    case Nil
    then show ?thesis using split_not_Nil by blast
  next
    case (Cons w ws)
    with Cons.IH show ?thesis by (cases ws) auto
  qed
qed

lemma split_two: "split sep s = [a, b] \<Longrightarrow> s = a @ sep # b"
  using join_split [of sep s] by simp

lemma capitalize_hd_tl: "b \<noteq> [] \<Longrightarrow> capitalize b = upper_char (hd b) # lower (tl b)"
  by (cases b) simp_all

subsection \<open>The normalizer: structure and idempotence of its structural part\<close>

lemma normalize_lang_code_spec_eq:
  "normalize_lang_code G p x = spec_alias (G ++ lang_aliases p) (spec_structural x)"
proof -
  define c where "c = lower (replace_char CHR ''_'' CHR ''-'' x)"
  show ?thesis
  proof (cases "split CHR ''-'' c")
    case Nil
    then show ?thesis using split_not_Nil by blast
  next
    case (Cons a r)
    show ?thesis
    proof (cases r)
      case Nil
      with Cons show ?thesis
        by (simp add: normalize_lang_code_def spec_alias_def spec_structural_def c_def [symmetric]
            Let_def cong: option.case_cong)
    next
      case (Cons b r')
      show ?thesis
      proof (cases r')
        case Nil
        with Cons \<open>split CHR ''-'' c = a # r\<close> have two: "split CHR ''-'' c = [a, b]" by simp
        have cap: "length b = 4 \<Longrightarrow> capitalize b = upper_char (hd b) # lower (tl b)"
          by (rule capitalize_hd_tl) auto
        show ?thesis using two cap
          by (simp add: normalize_lang_code_def spec_alias_def spec_structural_def
              c_def [symmetric] Let_def cong: option.case_cong)
      next
        case (Cons b' r'')
        with \<open>r = b # r'\<close> \<open>split CHR ''-'' c = a # r\<close> show ?thesis
          by (simp add: normalize_lang_code_def spec_alias_def spec_structural_def
              c_def [symmetric] Let_def cong: option.case_cong)
      qed
    qed
  qed
qed

lemma map_fold_capitalize:
  "b \<noteq> [] \<Longrightarrow> map fold_char (upper_char (hd b) # lower (tl b)) = map fold_char b"
  by (cases b) (simp_all add: lower_def fold_char_upper fold_char_lower)

lemma map_fold_upper: "map fold_char (upper b) = map fold_char b"
  by (simp add: upper_def fold_char_upper)

lemma spec_structural_fold:
  "map fold_char (spec_structural x) = map fold_char x"
proof -
  define c where "c = map fold_char x"
  have cc: "map fold_char c = c" by (simp add: c_def fold_char_idem)
  show ?thesis
  proof (cases "\<exists>a b. split CHR ''-'' c = [a, b]")
    case True
    then obtain a b where two: "split CHR ''-'' c = [a, b]" by blast
    then have ceq: "c = a @ CHR ''-'' # b" by (rule split_two)
    have b4: "length b = 4 \<Longrightarrow> map fold_char (upper_char (hd b) # lower (tl b)) = map fold_char b"
      by (rule map_fold_capitalize) auto
    have "map fold_char (spec_structural x) = map fold_char (a @ CHR ''-'' # b)"
      using two b4
      by (simp add: spec_structural_def lower_replace_fold c_def [symmetric] map_fold_upper
          fold_char_hyphen)
    then show ?thesis using ceq cc by (simp add: c_def)
  next
    case False
    then have "spec_structural x = c"
      by (auto simp: spec_structural_def lower_replace_fold c_def [symmetric] split: list.splits)
    then show ?thesis using cc by (simp add: c_def)
  qed
qed

lemma spec_structural_idem: "spec_structural (spec_structural x) = spec_structural x"
proof -
  have "spec_structural y = spec_structural z" if "map fold_char y = map fold_char z" for y z
    using that by (simp add: spec_structural_def lower_replace_fold)
  then show ?thesis using spec_structural_fold by blast
qed

lemma normalize_lang_code_idem_aux:
  assumes "\<forall>v \<in> ran (G ++ lang_aliases p). normalize_lang_code G p v = v"
  shows "normalize_lang_code G p (normalize_lang_code G p x) = normalize_lang_code G p x"
proof (cases "(G ++ lang_aliases p) (spec_structural x)")
  case None
  then have "normalize_lang_code G p x = spec_structural x"
    by (simp only: normalize_lang_code_spec_eq spec_alias_def option.case)
  moreover have "normalize_lang_code G p (spec_structural x) = spec_structural x"
    using None
    by (simp only: normalize_lang_code_spec_eq spec_alias_def spec_structural_idem option.case)
  ultimately show ?thesis by simp
next
  case (Some v)
  then have "normalize_lang_code G p x = v"
    by (simp only: normalize_lang_code_spec_eq spec_alias_def option.case)
  moreover from Some have "v \<in> ran (G ++ lang_aliases p)" by (rule ranI)
  ultimately show ?thesis using assms by simp
qed

lemma normalize_lang_code_eval:
  assumes "spec_structural x = s" and "(G ++ lang_aliases p) s = r"
  shows "normalize_lang_code G p x = (case r of None \<Rightarrow> s | Some a \<Rightarrow> a)"
  unfolding normalize_lang_code_spec_eq spec_alias_def assms ..

lemmas structural_eval =
  spec_structural_def lower_def upper_def lower_char_def upper_char_def replace_char_def
  Let_def char_of_eq_iff

text \<open>The normalizer keeps ASCII codes ASCII when the alias targets are ASCII.\<close>

lemma of_char_fold_ascii: "((of_char (fold_char c) :: nat) < 128) = ((of_char c :: nat) < 128)"
  unfolding of_char_fold by (simp; arith)

lemma is_ascii_map_fold: "is_ascii (map fold_char s) = is_ascii s"
  by (induction s) (simp_all add: is_ascii_def of_char_fold_ascii)

lemma is_ascii_spec_structural: "is_ascii (spec_structural x) = is_ascii x"
proof -
  have "is_ascii (spec_structural x) = is_ascii (map fold_char (spec_structural x))"
    by (simp only: is_ascii_map_fold)
  also have "\<dots> = is_ascii (map fold_char x)"
    by (simp only: spec_structural_fold)
  also have "\<dots> = is_ascii x"
    by (simp only: is_ascii_map_fold)
  finally show ?thesis .
qed

lemma is_ascii_normalize_lang_code:
  assumes "is_ascii x" and "\<forall>v \<in> ran (G ++ lang_aliases p). is_ascii v"
  shows "is_ascii (normalize_lang_code G p x)"
proof (cases "(G ++ lang_aliases p) (spec_structural x)")
  case None
  then have "normalize_lang_code G p x = spec_structural x"
    by (simp only: normalize_lang_code_spec_eq spec_alias_def option.case)
  then show ?thesis using assms(1) by (simp only: is_ascii_spec_structural)
next
  case (Some v)
  then have "normalize_lang_code G p x = v"
    by (simp only: normalize_lang_code_spec_eq spec_alias_def option.case)
  moreover from Some have "v \<in> ran (G ++ lang_aliases p)" by (rule ranI)
  ultimately show ?thesis using assms(2) by simp
qed

lemma denormalize_loop_map:
  "denormalize_loop p cs result = result @ map (\<lambda>c. dict_get (nonstandard_langs p) c c) cs"
  by (induction cs arbitrary: result) simp_all

subsection \<open>The registry after a sequence of calls\<close>

lemma lang_aliases_add_lang [simp]:
  "lang_aliases (add_lang G p original_code name trans' tts) = lang_aliases p"
  by (cases name) (auto simp: add_lang_def Let_def)

lemma normalize_lang_code_cong:
  "lang_aliases p = lang_aliases q \<Longrightarrow> normalize_lang_code G p x = normalize_lang_code G q x"
  by (simp add: normalize_lang_code_def)

lemma normalize_lang_code_add_lang [simp]:
  "normalize_lang_code G (add_lang G p original_code name trans' tts) x = normalize_lang_code G p x"
  by (rule normalize_lang_code_cong) simp

lemma lang_aliases_add_langs [simp]:
  "lang_aliases (add_langs G p calls) = lang_aliases p"
  by (induction G p calls rule: add_langs.induct) simp_all

lemma normalize_lang_code_add_langs [simp]:
  "normalize_lang_code G (add_langs G p calls) x = normalize_lang_code G p x"
  by (rule normalize_lang_code_cong) simp

lemma nonstandard_langs_add_lang:
  "nonstandard_langs (add_lang G p original_code name trans' tts) =
     (if normalize_lang_code G p original_code \<noteq> original_code
         \<and> nonstandard_langs p (normalize_lang_code G p original_code) = None
      then (nonstandard_langs p)(normalize_lang_code G p original_code \<mapsto> original_code)
      else nonstandard_langs p)"
  by (cases name) (auto simp: add_lang_def Let_def)

lemma languages_add_lang:
  "languages (add_lang G p original_code name trans' tts) =
     (if trans' then languages p @ [normalize_lang_code G p original_code] else languages p)"
  by (cases name) (auto simp: add_lang_def Let_def)

lemma tts_languages_add_lang:
  "tts_languages (add_lang G p original_code name trans' tts) =
     (if tts then tts_languages p @ [normalize_lang_code G p original_code] else tts_languages p)"
  by (cases name) (auto simp: add_lang_def Let_def)

lemma languages_names_add_lang:
  "languages_names (add_lang G p original_code name trans' tts) =
     (case name of
        None \<Rightarrow> languages_names p
      | Some n \<Rightarrow>
          if languages_names p (normalize_lang_code G p original_code) = None
          then (languages_names p)(normalize_lang_code G p original_code \<mapsto> n)
          else languages_names p)"
  by (cases name) (auto simp: add_lang_def Let_def)

lemma nonstandard_langs_add_langs:
  "nonstandard_langs (add_langs G p calls) c =
     (case nonstandard_langs p c of
        Some orig \<Rightarrow> Some orig
      | None \<Rightarrow> List.find (\<lambda>orig. normalize_lang_code G p orig = c \<and> orig \<noteq> c) (map fst calls))"
proof (induction G p calls rule: add_langs.induct)
  case (1 G p)
  show ?case by (simp split: option.splits)
next
  case (2 G p original_code name trans' tts calls)
  show ?case
    unfolding add_langs.simps "2.IH"
    by (auto simp: nonstandard_langs_add_lang split: option.splits)
qed

lemma find_hd_filter:
  "List.find P xs = (if filter P xs = [] then None else Some (hd (filter P xs)))"
  by (induction xs) auto

lemma languages_add_langs:
  "set (languages (add_langs G p calls))
     \<subseteq> set (languages p) \<union> normalize_lang_code G p ` fst ` set calls"
proof (induction G p calls rule: add_langs.induct)
  case (1 G p)
  show ?case by simp
next
  case (2 G p original_code name trans' tts calls)
  then show ?case
    unfolding add_langs.simps
    by (auto simp: languages_add_lang split: if_splits)
qed

lemma tts_languages_add_langs:
  "set (tts_languages (add_langs G p calls))
     \<subseteq> set (tts_languages p) \<union> normalize_lang_code G p ` fst ` set calls"
proof (induction G p calls rule: add_langs.induct)
  case (1 G p)
  show ?case by simp
next
  case (2 G p original_code name trans' tts calls)
  then show ?case
    unfolding add_langs.simps
    by (auto simp: tts_languages_add_lang split: if_splits)
qed


lemma nonstandard_langs_fresh:
  "nonstandard_langs (add_langs G (init aliases store) calls) c =
     List.find (\<lambda>orig. normalize_lang_code G (init aliases store) orig = c \<and> orig \<noteq> c)
       (map fst calls)"
  by (simp add: nonstandard_langs_add_langs) (simp add: init_def)

subsection \<open>The query string\<close>

lemma urlencode_loop_map:
  "urlencode_loop query l = l @ map (\<lambda>(k, v). quote_plus k @ ''='' @ quote_plus v) query"
  by (induction query l rule: urlencode_loop.induct) simp_all

lemma join_Nil_iff: "xs \<noteq> [] \<Longrightarrow> hd xs \<noteq> [] \<Longrightarrow> join sep xs \<noteq> []"
  by (induction sep xs rule: join.induct) simp_all

lemma urlencode_Nil_iff: "urlencode query = [] \<longleftrightarrow> query = []"
proof (cases query)
  case Nil
  then show ?thesis by (simp add: urlencode_def)
next
  case (Cons kv rest)
  obtain k v where kv: "kv = (k, v)" by (cases kv)
  have "join ''&'' (map (\<lambda>(k, v). quote_plus k @ ''='' @ quote_plus v) query) \<noteq> []"
    by (rule join_Nil_iff) (simp_all add: Cons kv)
  then show ?thesis by (simp add: urlencode_def urlencode_loop_map Cons)
qed

subsection \<open>The claims\<close>

text \<open>
  C1. Stated for the \<open>translate\<close> of a concrete provider as the specification requires
  it (\<open>provider_translate\<close>); the abstract \<open>BaseProvider.translate\<close> is not its subject.
  With empty text, \<open>on_fail\<close> is called exactly once, with code \<open>EMPTY\<close>, \<open>on_done\<close> is not
  called, no transport request is made and nothing is raised. With a non-empty text longer
  than \<open>chars_limit\<close>, when \<open>chars_limit\<close> is not \<open>-1\<close>, the same holds with code
  \<open>CHARACTERS_LIMIT_EXCEEDED\<close>. Both hold whatever the exchange with the service would
  have given.
\<close>

theorem provider_translate_validation:
  "(text_in = [] \<longrightarrow>
      map err_code (on_fail_calls (fst (provider_translate exchange p text_in src dest))) = [EMPTY]
      \<and> on_done_calls (fst (provider_translate exchange p text_in src dest)) = []
      \<and> Transport \<notin> set (fst (provider_translate exchange p text_in src dest))
      \<and> snd (provider_translate exchange p text_in src dest) = Inr ())
   \<and> (text_in \<noteq> [] \<and> chars_limit p \<noteq> - 1 \<and> chars_limit p < int (length text_in) \<longrightarrow>
      map err_code (on_fail_calls (fst (provider_translate exchange p text_in src dest)))
        = [CHARACTERS_LIMIT_EXCEEDED]
      \<and> on_done_calls (fst (provider_translate exchange p text_in src dest)) = []
      \<and> Transport \<notin> set (fst (provider_translate exchange p text_in src dest))
      \<and> snd (provider_translate exchange p text_in src dest) = Inr ())"
  by (simp add: provider_translate_def on_fail_calls_def on_done_calls_def)

theorem provider_translate_validation_witness:
  "map err_code (on_fail_calls (fst (provider_translate
        (\<lambda>p t s d. Inl \<lparr>err_code = NETWORK, err_message = []\<rparr>)
        (init Map.empty \<lparr>strings = Map.empty, strvs = Map.empty\<rparr>)
        ([] :: string) ''en'' ''fr''))) = [EMPTY]
   \<and> Transport \<notin> set (fst (provider_translate
        (\<lambda>p t s d. Inl \<lparr>err_code = NETWORK, err_message = []\<rparr>)
        (init Map.empty \<lparr>strings = Map.empty, strvs = Map.empty\<rparr>)
        ([] :: string) ''en'' ''fr''))
   \<and> ''hello'' \<noteq> []
   \<and> chars_limit ((init Map.empty \<lparr>strings = Map.empty, strvs = Map.empty\<rparr>)\<lparr>chars_limit := 3\<rparr>) \<noteq> - 1
   \<and> chars_limit ((init Map.empty \<lparr>strings = Map.empty, strvs = Map.empty\<rparr>)\<lparr>chars_limit := 3\<rparr>)
        < int (length ''hello'')
   \<and> map err_code (on_fail_calls (fst (provider_translate
        (\<lambda>p t s d. Inl \<lparr>err_code = NETWORK, err_message = []\<rparr>)
        ((init Map.empty \<lparr>strings = Map.empty, strvs = Map.empty\<rparr>)\<lparr>chars_limit := 3\<rparr>)
        ''hello'' ''en'' ''fr''))) = [CHARACTERS_LIMIT_EXCEEDED]
   \<and> Transport \<notin> set (fst (provider_translate
        (\<lambda>p t s d. Inl \<lparr>err_code = NETWORK, err_message = []\<rparr>)
        ((init Map.empty \<lparr>strings = Map.empty, strvs = Map.empty\<rparr>)\<lparr>chars_limit := 3\<rparr>)
        ''hello'' ''en'' ''fr''))
   \<and> fst (provider_translate
        (\<lambda>p t s d. Inl \<lparr>err_code = NETWORK, err_message = []\<rparr>)
        (init Map.empty \<lparr>strings = Map.empty, strvs = Map.empty\<rparr>)
        ''hello'' ''en'' ''fr'') = [Transport, OnFail \<lparr>err_code = NETWORK, err_message = []\<rparr>]"
proof -
  let ?ex = "\<lambda>(p :: Provider) (t :: string) (s :: string) (d :: string).
               (Inl \<lparr>err_code = NETWORK, err_message = []\<rparr> :: ProviderError + Translation)"
  let ?p = "init Map.empty \<lparr>strings = Map.empty, strvs = Map.empty\<rparr>"
  let ?q = "?p\<lparr>chars_limit := 3\<rparr>"
  have h2a: "''hello'' \<noteq> []" by simp
  have h2b: "chars_limit ?q \<noteq> - 1" by simp
  have h2c: "chars_limit ?q < int (length ''hello'')" by simp
  have free: "fst (provider_translate ?ex ?p ''hello'' ''en'' ''fr'')
       = [Transport, OnFail \<lparr>err_code = NETWORK, err_message = []\<rparr>]"
    by (simp add: provider_translate_def init_def)
  from provider_translate_validation [of "[] :: string" ?ex ?p "''en''" "''fr''"]
  have e1: "map err_code (on_fail_calls (fst (provider_translate ?ex ?p ([] :: string) ''en'' ''fr''))) = [EMPTY]"
    and e2: "Transport \<notin> set (fst (provider_translate ?ex ?p ([] :: string) ''en'' ''fr''))"
    by blast+
  from provider_translate_validation [of "''hello''" ?ex ?q "''en''" "''fr''"] h2a h2b h2c
  have l1: "map err_code (on_fail_calls (fst (provider_translate ?ex ?q ''hello'' ''en'' ''fr'')))
             = [CHARACTERS_LIMIT_EXCEEDED]"
    and l2: "Transport \<notin> set (fst (provider_translate ?ex ?q ''hello'' ''en'' ''fr''))"
    by blast+
  from e1 e2 h2a h2b h2c l1 l2 free show ?thesis by (intro conjI)
qed

text \<open>
  C2 (as amended). For every ASCII code \<open>x\<close>, and every global and provider alias table
  such that each target of the merged table is ASCII and is itself left unchanged by
  \<open>normalize_lang_code\<close>, the normalized code is ASCII and normalizing it again gives the
  same code.
\<close>

theorem normalize_lang_code_idempotent:
  assumes "is_ascii x"
      and "\<forall>v \<in> ran (G ++ lang_aliases p). is_ascii v \<and> normalize_lang_code G p v = v"
  shows "is_ascii (normalize_lang_code G p x)
       \<and> normalize_lang_code G p (normalize_lang_code G p x) = normalize_lang_code G p x"
proof
  from assms(2) have "\<forall>v \<in> ran (G ++ lang_aliases p). is_ascii v" by blast
  with assms(1) show "is_ascii (normalize_lang_code G p x)"
    by (rule is_ascii_normalize_lang_code)
next
  from assms(2) have "\<forall>v \<in> ran (G ++ lang_aliases p). normalize_lang_code G p v = v" by blast
  then show "normalize_lang_code G p (normalize_lang_code G p x) = normalize_lang_code G p x"
    by (rule normalize_lang_code_idem_aux)
qed

theorem normalize_lang_code_idempotent_witness:
  "is_ascii ''ZH_cn''
   \<and> ran ([''iw'' \<mapsto> ''he''] ++ lang_aliases (init [''zh-CN'' \<mapsto> ''zh-Hans''] \<lparr>strings = Map.empty, strvs = Map.empty\<rparr>))
       = {''he'', ''zh-Hans''}
   \<and> is_ascii ''he'' \<and> is_ascii ''zh-Hans''
   \<and> normalize_lang_code [''iw'' \<mapsto> ''he''] (init [''zh-CN'' \<mapsto> ''zh-Hans''] \<lparr>strings = Map.empty, strvs = Map.empty\<rparr>) ''he'' = ''he''
   \<and> normalize_lang_code [''iw'' \<mapsto> ''he''] (init [''zh-CN'' \<mapsto> ''zh-Hans''] \<lparr>strings = Map.empty, strvs = Map.empty\<rparr>) ''zh-Hans'' = ''zh-Hans''
   \<and> normalize_lang_code [''iw'' \<mapsto> ''he''] (init [''zh-CN'' \<mapsto> ''zh-Hans''] \<lparr>strings = Map.empty, strvs = Map.empty\<rparr>) ''ZH_cn'' = ''zh-Hans''
   \<and> normalize_lang_code [''iw'' \<mapsto> ''he''] (init [''zh-CN'' \<mapsto> ''zh-Hans''] \<lparr>strings = Map.empty, strvs = Map.empty\<rparr>)
        (normalize_lang_code [''iw'' \<mapsto> ''he''] (init [''zh-CN'' \<mapsto> ''zh-Hans''] \<lparr>strings = Map.empty, strvs = Map.empty\<rparr>) ''ZH_cn'')
       = normalize_lang_code [''iw'' \<mapsto> ''he''] (init [''zh-CN'' \<mapsto> ''zh-Hans''] \<lparr>strings = Map.empty, strvs = Map.empty\<rparr>) ''ZH_cn''"
proof -
  let ?G = "[''iw'' \<mapsto> ''he'']"
  let ?p = "init [''zh-CN'' \<mapsto> ''zh-Hans''] \<lparr>strings = Map.empty, strvs = Map.empty\<rparr>"
  have asc: "is_ascii ''ZH_cn''" by (simp add: is_ascii_def)
  have asc1: "is_ascii ''he''" by (simp add: is_ascii_def)
  have asc2: "is_ascii ''zh-Hans''" by (simp add: is_ascii_def)
  have tab: "?G ++ lang_aliases ?p = [''iw'' \<mapsto> ''he'', ''zh-CN'' \<mapsto> ''zh-Hans'']"
    by (simp add: init_def)
  have r: "ran (?G ++ lang_aliases ?p) = {''he'', ''zh-Hans''}"
    unfolding tab by auto
  have s1: "spec_structural ''he'' = ''he''" by (simp add: structural_eval)
  have s2: "spec_structural ''zh-Hans'' = ''zh-Hans''" by (simp add: structural_eval)
  have s3: "spec_structural ''ZH_cn'' = ''zh-CN''" by (simp add: structural_eval)
  have a1: "(?G ++ lang_aliases ?p) ''he'' = None" unfolding tab by simp
  have a2: "(?G ++ lang_aliases ?p) ''zh-Hans'' = None" unfolding tab by simp
  have a3: "(?G ++ lang_aliases ?p) ''zh-CN'' = Some ''zh-Hans''" unfolding tab by simp
  have n1: "normalize_lang_code ?G ?p ''he'' = ''he''"
    using normalize_lang_code_eval [OF s1 a1] by simp
  have n2: "normalize_lang_code ?G ?p ''zh-Hans'' = ''zh-Hans''"
    using normalize_lang_code_eval [OF s2 a2] by simp
  have n3: "normalize_lang_code ?G ?p ''ZH_cn'' = ''zh-Hans''"
    using normalize_lang_code_eval [OF s3 a3] by simp
  have fixp: "\<forall>v \<in> ran (?G ++ lang_aliases ?p). is_ascii v \<and> normalize_lang_code ?G ?p v = v"
    unfolding r using n1 n2 asc1 asc2 by simp
  from normalize_lang_code_idempotent [OF asc fixp] have
    "normalize_lang_code ?G ?p (normalize_lang_code ?G ?p ''ZH_cn'') = normalize_lang_code ?G ?p ''ZH_cn''"
    by (rule conjunct2)
  with asc r asc1 asc2 n1 n2 n3 show ?thesis by (intro conjI)
qed

text \<open>
  C2 as stated fails for a provider whose aliases chain: with \<open>{'iw': 'he', 'he': 'heb'}\<close>
  the code \<open>iw\<close> normalizes to \<open>he\<close>, and \<open>he\<close> normalizes to \<open>heb\<close>.
\<close>

theorem normalize_lang_code_idempotent_counterexample:
  "normalize_lang_code Map.empty
       (init [''iw'' \<mapsto> ''he'', ''he'' \<mapsto> ''heb''] \<lparr>strings = Map.empty, strvs = Map.empty\<rparr>)
       (normalize_lang_code Map.empty
          (init [''iw'' \<mapsto> ''he'', ''he'' \<mapsto> ''heb''] \<lparr>strings = Map.empty, strvs = Map.empty\<rparr>) ''iw'')
   \<noteq> normalize_lang_code Map.empty
       (init [''iw'' \<mapsto> ''he'', ''he'' \<mapsto> ''heb''] \<lparr>strings = Map.empty, strvs = Map.empty\<rparr>) ''iw''"
proof -
  let ?p = "init [''iw'' \<mapsto> ''he'', ''he'' \<mapsto> ''heb''] \<lparr>strings = Map.empty, strvs = Map.empty\<rparr>"
  have s1: "spec_structural ''iw'' = ''iw''" by (simp add: structural_eval)
  have s2: "spec_structural ''he'' = ''he''" by (simp add: structural_eval)
  have a1: "(Map.empty ++ lang_aliases ?p) ''iw'' = Some ''he''" by (simp add: init_def)
  have a2: "(Map.empty ++ lang_aliases ?p) ''he'' = Some ''heb''" by (simp add: init_def)
  have n1: "normalize_lang_code Map.empty ?p ''iw'' = ''he''"
    using normalize_lang_code_eval [OF s1 a1] by simp
  have n2: "normalize_lang_code Map.empty ?p ''he'' = ''heb''"
    using normalize_lang_code_eval [OF s2 a2] by simp
  show ?thesis unfolding n1 n2 by simp
qed

text \<open>
  C3 (as amended). After any sequence of \<open>add_lang\<close> calls on a fresh provider, for every
  original code that was added and that normalization changes,
  \<open>denormalize_lang(normalize_lang_code(original))\<close> is the first original code added in
  the sequence that has the same normalization and differs from it (first write wins); it
  is \<open>original\<close> itself exactly when no other such code was added before it.
\<close>

theorem denormalize_lang_first_original:
  assumes "p' = add_langs G (init aliases store) calls"
      and "original_code \<in> fst ` set calls"
      and "normalize_lang_code G p' original_code \<noteq> original_code"
  shows "denormalize_lang p' [normalize_lang_code G p' original_code] =
           Str (hd (filter (\<lambda>orig. normalize_lang_code G p' orig = normalize_lang_code G p' original_code
                                   \<and> orig \<noteq> normalize_lang_code G p' orig)
                      (map fst calls)))"
proof -
  let ?N = "normalize_lang_code G (init aliases store)"
  let ?c = "?N original_code"
  have N: "normalize_lang_code G p' x = ?N x" for x
    unfolding assms(1) by simp
  have P: "filter (\<lambda>orig. ?N orig = ?c \<and> orig \<noteq> ?N orig) (map fst calls)
         = filter (\<lambda>orig. ?N orig = ?c \<and> orig \<noteq> ?c) (map fst calls)"
    by (rule filter_cong) auto
  have mem: "original_code \<in> set (map fst calls)"
    using assms(2) by simp
  have Pc: "?N original_code = ?c \<and> original_code \<noteq> ?c"
    using assms(3) unfolding N by auto
  have ne: "filter (\<lambda>orig. ?N orig = ?c \<and> orig \<noteq> ?c) (map fst calls) \<noteq> []"
    unfolding filter_empty_conv using mem Pc by blast
  have "nonstandard_langs p' ?c
          = Some (hd (filter (\<lambda>orig. ?N orig = ?c \<and> orig \<noteq> ?c) (map fst calls)))"
    unfolding assms(1) nonstandard_langs_fresh find_hd_filter using ne by simp
  then show ?thesis
    unfolding N P by (simp add: denormalize_lang_def dict_get_def)
qed

theorem denormalize_lang_first_original_witness:
  "''ZH_cn'' \<in> fst ` set [(''zh_CN'', None :: string option, True, False), (''ZH_cn'', None, True, False)]
   \<and> normalize_lang_code Map.empty
        (add_langs Map.empty (init Map.empty \<lparr>strings = Map.empty, strvs = Map.empty\<rparr>)
           [(''zh_CN'', None, True, False), (''ZH_cn'', None, True, False)]) ''ZH_cn'' \<noteq> ''ZH_cn''
   \<and> denormalize_lang
        (add_langs Map.empty (init Map.empty \<lparr>strings = Map.empty, strvs = Map.empty\<rparr>)
           [(''zh_CN'', None, True, False), (''ZH_cn'', None, True, False)])
        [normalize_lang_code Map.empty
           (add_langs Map.empty (init Map.empty \<lparr>strings = Map.empty, strvs = Map.empty\<rparr>)
              [(''zh_CN'', None, True, False), (''ZH_cn'', None, True, False)]) ''ZH_cn'']
       = Str ''zh_CN''"
proof -
  let ?p = "init Map.empty \<lparr>strings = Map.empty, strvs = Map.empty\<rparr>"
  let ?calls = "[(''zh_CN'', None :: string option, True, False), (''ZH_cn'', None, True, False)]"
  let ?p' = "add_langs Map.empty ?p ?calls"
  have al: "(Map.empty ++ lang_aliases ?p) k = None" for k by (simp add: init_def)
  have s1: "spec_structural ''zh_CN'' = ''zh-CN''" by (simp add: structural_eval)
  have s2: "spec_structural ''ZH_cn'' = ''zh-CN''" by (simp add: structural_eval)
  have n1: "normalize_lang_code Map.empty ?p ''zh_CN'' = ''zh-CN''"
    using normalize_lang_code_eval [OF s1 al] by simp
  have n2: "normalize_lang_code Map.empty ?p ''ZH_cn'' = ''zh-CN''"
    using normalize_lang_code_eval [OF s2 al] by simp
  have m1: "normalize_lang_code Map.empty ?p' ''zh_CN'' = ''zh-CN''"
    unfolding normalize_lang_code_add_langs by (rule n1)
  have m2: "normalize_lang_code Map.empty ?p' ''ZH_cn'' = ''zh-CN''"
    unfolding normalize_lang_code_add_langs by (rule n2)
  have mem: "''ZH_cn'' \<in> fst ` set ?calls" by simp
  have ch: "normalize_lang_code Map.empty ?p' ''ZH_cn'' \<noteq> ''ZH_cn''"
    unfolding m2 by simp
  from denormalize_lang_first_original [OF refl mem ch]
  have d: "denormalize_lang ?p' [normalize_lang_code Map.empty ?p' ''ZH_cn''] = Str ''zh_CN''"
    by (simp add: n1 n2)
  show ?thesis by (rule conjI [OF mem conjI [OF ch d]])
qed

text \<open>
  C3 as stated fails: after \<open>add_lang('zh_CN')\<close> and \<open>add_lang('ZH_cn')\<close>, both of which
  normalize to \<open>zh-CN\<close>, denormalizing the normalization of \<open>ZH_cn\<close> gives \<open>zh_CN\<close>.
\<close>

theorem denormalize_lang_roundtrip_counterexample:
  "normalize_lang_code Map.empty
        (add_langs Map.empty (init Map.empty \<lparr>strings = Map.empty, strvs = Map.empty\<rparr>)
           [(''zh_CN'', None, True, False), (''ZH_cn'', None, True, False)]) ''ZH_cn'' \<noteq> ''ZH_cn''
   \<and> denormalize_lang
        (add_langs Map.empty (init Map.empty \<lparr>strings = Map.empty, strvs = Map.empty\<rparr>)
           [(''zh_CN'', None, True, False), (''ZH_cn'', None, True, False)])
        [normalize_lang_code Map.empty
           (add_langs Map.empty (init Map.empty \<lparr>strings = Map.empty, strvs = Map.empty\<rparr>)
              [(''zh_CN'', None, True, False), (''ZH_cn'', None, True, False)]) ''ZH_cn'']
       \<noteq> Str ''ZH_cn''"
proof -
  let ?p = "init Map.empty \<lparr>strings = Map.empty, strvs = Map.empty\<rparr>"
  let ?calls = "[(''zh_CN'', None :: string option, True, False), (''ZH_cn'', None, True, False)]"
  let ?p' = "add_langs Map.empty ?p ?calls"
  have al: "(Map.empty ++ lang_aliases ?p) k = None" for k by (simp add: init_def)
  have s1: "spec_structural ''zh_CN'' = ''zh-CN''" by (simp add: structural_eval)
  have s2: "spec_structural ''ZH_cn'' = ''zh-CN''" by (simp add: structural_eval)
  have n1: "normalize_lang_code Map.empty ?p ''zh_CN'' = ''zh-CN''"
    using normalize_lang_code_eval [OF s1 al] by simp
  have n2: "normalize_lang_code Map.empty ?p ''ZH_cn'' = ''zh-CN''"
    using normalize_lang_code_eval [OF s2 al] by simp
  have m2: "normalize_lang_code Map.empty ?p' ''ZH_cn'' = ''zh-CN''"
    unfolding normalize_lang_code_add_langs by (rule n2)
  have ns: "nonstandard_langs ?p' ''zh-CN'' = Some ''zh_CN''"
    unfolding nonstandard_langs_fresh by (simp add: n1 n2)
  show ?thesis
    unfolding m2 by (simp add: denormalize_lang_def dict_get_def ns del: add_langs.simps)
qed

text \<open>
  C4 (as amended). For every ASCII code, \<open>normalize_lang_code\<close> is the structural
  normalization worded in the specification (\<open>spec_structural\<close>: underscores to hyphens,
  lower-casing, and for exactly two parts a second part of four characters capitalized, of
  two characters upper-cased, of any other length unchanged) followed by one lookup of
  that result in the merged alias table. The structural step takes \<open>ZH_cn\<close> to \<open>zh-CN\<close>,
  \<open>zh-hans\<close> to \<open>zh-Hans\<close> and \<open>EN\<close> to \<open>en\<close>; each of these is the result of
  \<open>normalize_lang_code\<close> when the merged alias table has no entry for it.
\<close>

theorem normalize_lang_code_structure:
  "(is_ascii x \<longrightarrow>
      normalize_lang_code G p x = spec_alias (G ++ lang_aliases p) (spec_structural x))
   \<and> spec_structural ''ZH_cn'' = ''zh-CN''
   \<and> spec_structural ''zh-hans'' = ''zh-Hans''
   \<and> spec_structural ''EN'' = ''en''
   \<and> ((G ++ lang_aliases p) ''zh-CN'' = None \<longrightarrow> normalize_lang_code G p ''ZH_cn'' = ''zh-CN'')
   \<and> ((G ++ lang_aliases p) ''zh-Hans'' = None \<longrightarrow> normalize_lang_code G p ''zh-hans'' = ''zh-Hans'')
   \<and> ((G ++ lang_aliases p) ''en'' = None \<longrightarrow> normalize_lang_code G p ''EN'' = ''en'')"
proof -
  have a: "spec_structural ''ZH_cn'' = ''zh-CN''" by (simp add: structural_eval)
  have b: "spec_structural ''zh-hans'' = ''zh-Hans''" by (simp add: structural_eval)
  have c: "spec_structural ''EN'' = ''en''" by (simp add: structural_eval)
  show ?thesis
    unfolding normalize_lang_code_spec_eq a b c
    by (simp add: spec_alias_def del: map_add_None)
qed

theorem normalize_lang_code_structure_witness:
  "is_ascii ''pt_br''
   \<and> normalize_lang_code [''iw'' \<mapsto> ''he''] (init Map.empty \<lparr>strings = Map.empty, strvs = Map.empty\<rparr>) ''pt_br'' = ''pt-BR''
   \<and> is_ascii ''IW''
   \<and> normalize_lang_code [''iw'' \<mapsto> ''he''] (init Map.empty \<lparr>strings = Map.empty, strvs = Map.empty\<rparr>) ''IW'' = ''he''
   \<and> ([''iw'' \<mapsto> ''he''] ++ lang_aliases (init Map.empty \<lparr>strings = Map.empty, strvs = Map.empty\<rparr>)) ''zh-CN'' = None
   \<and> ([''iw'' \<mapsto> ''he''] ++ lang_aliases (init Map.empty \<lparr>strings = Map.empty, strvs = Map.empty\<rparr>)) ''zh-Hans'' = None
   \<and> ([''iw'' \<mapsto> ''he''] ++ lang_aliases (init Map.empty \<lparr>strings = Map.empty, strvs = Map.empty\<rparr>)) ''en'' = None
   \<and> normalize_lang_code [''iw'' \<mapsto> ''he''] (init Map.empty \<lparr>strings = Map.empty, strvs = Map.empty\<rparr>) ''ZH_cn'' = ''zh-CN''
   \<and> normalize_lang_code [''iw'' \<mapsto> ''he''] (init Map.empty \<lparr>strings = Map.empty, strvs = Map.empty\<rparr>) ''zh-hans'' = ''zh-Hans''
   \<and> normalize_lang_code [''iw'' \<mapsto> ''he''] (init Map.empty \<lparr>strings = Map.empty, strvs = Map.empty\<rparr>) ''EN'' = ''en''"
proof -
  let ?G = "[''iw'' \<mapsto> ''he'']"
  let ?p = "init Map.empty \<lparr>strings = Map.empty, strvs = Map.empty\<rparr>"
  have tab: "?G ++ lang_aliases ?p = ?G" by (simp add: init_def)
  have h1: "(?G ++ lang_aliases ?p) ''zh-CN'' = None" unfolding tab by simp
  have h2: "(?G ++ lang_aliases ?p) ''zh-Hans'' = None" unfolding tab by simp
  have h3: "(?G ++ lang_aliases ?p) ''en'' = None" unfolding tab by simp
  have k1: "(?G ++ lang_aliases ?p) ''pt-BR'' = None" unfolding tab by simp
  have k2: "(?G ++ lang_aliases ?p) ''iw'' = Some ''he''" unfolding tab by simp
  have asc1: "is_ascii ''pt_br''" by (simp add: is_ascii_def)
  have asc2: "is_ascii ''IW''" by (simp add: is_ascii_def)
  have s1: "spec_structural ''pt_br'' = ''pt-BR''" by (simp add: structural_eval)
  have s2: "spec_structural ''IW'' = ''iw''" by (simp add: structural_eval)
  from normalize_lang_code_structure [of "''pt_br''" ?G ?p] asc1
  have e1: "normalize_lang_code ?G ?p ''pt_br'' = ''pt-BR''"
    by (simp add: s1 k1 spec_alias_def del: map_add_None)
  from normalize_lang_code_structure [of "''IW''" ?G ?p] asc2
  have e2: "normalize_lang_code ?G ?p ''IW'' = ''he''"
    by (simp add: s2 k2 spec_alias_def del: map_add_None)
  from normalize_lang_code_structure [of "''EN''" ?G ?p] h1 h2 h3
  have e3: "normalize_lang_code ?G ?p ''ZH_cn'' = ''zh-CN''"
    and e4: "normalize_lang_code ?G ?p ''zh-hans'' = ''zh-Hans''"
    and e5: "normalize_lang_code ?G ?p ''EN'' = ''en''"
    by blast+
  from asc1 e1 asc2 e2 h1 h2 h3 e3 e4 e5 show ?thesis by (intro conjI)
qed

text \<open>
  C4 as stated fails in its examples when the alias table has an entry for the structural
  result: with \<open>{'zh-CN': 'zh-Hans'}\<close> as the global table, or as the provider's own,
  \<open>ZH_cn\<close> normalizes to \<open>zh-Hans\<close>.
\<close>

theorem normalize_lang_code_examples_counterexample:
  "normalize_lang_code [''zh-CN'' \<mapsto> ''zh-Hans'']
      (init Map.empty \<lparr>strings = Map.empty, strvs = Map.empty\<rparr>) ''ZH_cn'' \<noteq> ''zh-CN''
   \<and> normalize_lang_code Map.empty
      (init [''zh-CN'' \<mapsto> ''zh-Hans''] \<lparr>strings = Map.empty, strvs = Map.empty\<rparr>) ''ZH_cn'' \<noteq> ''zh-CN''"
proof -
  let ?p = "init Map.empty \<lparr>strings = Map.empty, strvs = Map.empty\<rparr>"
  let ?q = "init [''zh-CN'' \<mapsto> ''zh-Hans''] \<lparr>strings = Map.empty, strvs = Map.empty\<rparr>"
  have s: "spec_structural ''ZH_cn'' = ''zh-CN''" by (simp add: structural_eval)
  have a1: "([''zh-CN'' \<mapsto> ''zh-Hans''] ++ lang_aliases ?p) ''zh-CN'' = Some ''zh-Hans''"
    by (simp add: init_def)
  have a2: "(Map.empty ++ lang_aliases ?q) ''zh-CN'' = Some ''zh-Hans''"
    by (simp add: init_def)
  have n1: "normalize_lang_code [''zh-CN'' \<mapsto> ''zh-Hans''] ?p ''ZH_cn'' = ''zh-Hans''"
    using normalize_lang_code_eval [OF s a1] by simp
  have n2: "normalize_lang_code Map.empty ?q ''ZH_cn'' = ''zh-Hans''"
    using normalize_lang_code_eval [OF s a2] by simp
  show ?thesis unfolding n1 n2 by simp
qed

text \<open>
  C5. \<open>denormalize_lang\<close> with one code returns a single string: the original recorded
  for the code in the nonstandard map, or the code itself. With any other number of codes,
  zero included, it returns a tuple as long as the input whose i-th element is the
  denormalization of the i-th code.
\<close>

theorem denormalize_lang_arity:
  "denormalize_lang p [c] = Str (case nonstandard_langs p c of Some orig \<Rightarrow> orig | None \<Rightarrow> c)
   \<and> (length codes \<noteq> 1 \<longrightarrow>
        (\<exists>r. denormalize_lang p codes = Tuple r \<and> length r = length codes
           \<and> (\<forall>i < length codes.
                 r ! i = (case nonstandard_langs p (codes ! i) of
                            Some orig \<Rightarrow> orig | None \<Rightarrow> codes ! i))))"
  by (auto simp: denormalize_lang_def denormalize_loop_map dict_get_def split: option.splits)

theorem denormalize_lang_arity_witness:
  "length [''zh-CN'', ''en''] \<noteq> 1
   \<and> denormalize_lang ((init Map.empty \<lparr>strings = Map.empty, strvs = Map.empty\<rparr>)
         \<lparr>nonstandard_langs := [''zh-CN'' \<mapsto> ''zh_cn'']\<rparr>) [''zh-CN'', ''en'']
       = Tuple [''zh_cn'', ''en'']
   \<and> denormalize_lang ((init Map.empty \<lparr>strings = Map.empty, strvs = Map.empty\<rparr>)
         \<lparr>nonstandard_langs := [''zh-CN'' \<mapsto> ''zh_cn'']\<rparr>) [] = Tuple []"
  using denormalize_lang_arity [of "(init Map.empty \<lparr>strings = Map.empty, strvs = Map.empty\<rparr>)
         \<lparr>nonstandard_langs := [''zh-CN'' \<mapsto> ''zh_cn'']\<rparr>" "''zh-CN''" "[''zh-CN'', ''en'']"]
  by (simp add: denormalize_lang_def dict_get_def)

text \<open>
  C6 (as amended). \<open>get_lang_name\<close> raises exactly when the locale service raises, and then
  the same exception; otherwise it returns the name of the locale service when it yields
  one, otherwise the name the provider recorded for the code, otherwise the code. The
  result is the empty string exactly when the value chosen by these three tiers is empty.
\<close>

theorem get_lang_name_fallback:
  "get_lang_name locale_name p c =
     (case locale_name c of
        Inl e \<Rightarrow> Inl e
      | Inr (Some n) \<Rightarrow> Inr n
      | Inr None \<Rightarrow> (case languages_names p c of Some n \<Rightarrow> Inr n | None \<Rightarrow> Inr c))
   \<and> (get_lang_name locale_name p c = Inl e \<longleftrightarrow> locale_name c = Inl e)
   \<and> (get_lang_name locale_name p c = Inr [] \<longleftrightarrow>
        locale_name c = Inr (Some [])
        \<or> (locale_name c = Inr None \<and> languages_names p c = Some [])
        \<or> (locale_name c = Inr None \<and> languages_names p c = None \<and> c = []))"
  by (auto simp: get_lang_name_def dict_get_def split: option.splits sum.splits)

theorem get_lang_name_fallback_witness:
  "get_lang_name (\<lambda>c. if c = ''en'' then Inr (Some ''English'') else if c = ''??'' then Inl (Raised ''KeyError'') else Inr None)
     (add_lang Map.empty (init Map.empty \<lparr>strings = Map.empty, strvs = Map.empty\<rparr>)
        ''tlh'' (Some ''Klingon'') True False) ''en'' = Inr ''English''
   \<and> get_lang_name (\<lambda>c. if c = ''en'' then Inr (Some ''English'') else if c = ''??'' then Inl (Raised ''KeyError'') else Inr None)
     (add_lang Map.empty (init Map.empty \<lparr>strings = Map.empty, strvs = Map.empty\<rparr>)
        ''tlh'' (Some ''Klingon'') True False) ''tlh'' = Inr ''Klingon''
   \<and> get_lang_name (\<lambda>c. if c = ''en'' then Inr (Some ''English'') else if c = ''??'' then Inl (Raised ''KeyError'') else Inr None)
     (add_lang Map.empty (init Map.empty \<lparr>strings = Map.empty, strvs = Map.empty\<rparr>)
        ''tlh'' (Some ''Klingon'') True False) ''xx'' = Inr ''xx''
   \<and> get_lang_name (\<lambda>c. if c = ''en'' then Inr (Some ''English'') else if c = ''??'' then Inl (Raised ''KeyError'') else Inr None)
     (add_lang Map.empty (init Map.empty \<lparr>strings = Map.empty, strvs = Map.empty\<rparr>)
        ''tlh'' (Some ''Klingon'') True False) ''??'' = Inl (Raised ''KeyError'')"
proof -
  let ?L = "\<lambda>c. if c = ''en'' then Inr (Some ''English'')
                 else if c = ''??'' then Inl (Raised ''KeyError'') else Inr None"
  let ?fresh = "init Map.empty \<lparr>strings = Map.empty, strvs = Map.empty\<rparr>"
  let ?p = "add_lang Map.empty ?fresh ''tlh'' (Some ''Klingon'') True False"
  have al: "(Map.empty ++ lang_aliases ?fresh) k = None" for k by (simp add: init_def)
  have s: "spec_structural ''tlh'' = ''tlh''" by (simp add: structural_eval)
  have n: "normalize_lang_code Map.empty ?fresh ''tlh'' = ''tlh''"
    using normalize_lang_code_eval [OF s al] by simp
  have e: "languages_names ?fresh = Map.empty" by (simp add: init_def)
  have names: "languages_names ?p = [''tlh'' \<mapsto> ''Klingon'']"
    by (simp add: languages_names_add_lang n e)
  have a: "get_lang_name ?L ?p ''en'' = Inr ''English''"
    using get_lang_name_fallback [of ?L ?p "''en''"] by simp
  have b: "get_lang_name ?L ?p ''tlh'' = Inr ''Klingon''"
    using get_lang_name_fallback [of ?L ?p "''tlh''"] by (simp add: names)
  have c: "get_lang_name ?L ?p ''xx'' = Inr ''xx''"
    using get_lang_name_fallback [of ?L ?p "''xx''"] by (simp add: names)
  have d: "get_lang_name ?L ?p ''??'' = Inl (Raised ''KeyError'')"
    using get_lang_name_fallback [of ?L ?p "''??''"] by simp
  from a b c d show ?thesis by (intro conjI)
qed

text \<open>
  C6 as stated fails twice over: a locale service that raises makes \<open>get_lang_name\<close>
  raise; and for the empty code on a fresh provider, or for a language added with an empty
  name, the result is the empty string.
\<close>

theorem get_lang_name_counterexample:
  "get_lang_name (\<lambda>c. Inl (Raised ''KeyError''))
      (init Map.empty \<lparr>strings = Map.empty, strvs = Map.empty\<rparr>) ''en'' = Inl (Raised ''KeyError'')
   \<and> get_lang_name (\<lambda>c. Inr None)
      (init Map.empty \<lparr>strings = Map.empty, strvs = Map.empty\<rparr>) [] = Inr []
   \<and> get_lang_name (\<lambda>c. Inr None)
        (add_lang Map.empty (init Map.empty \<lparr>strings = Map.empty, strvs = Map.empty\<rparr>)
           ''xx'' (Some []) True False) ''xx'' = Inr []"
proof -
  let ?fresh = "init Map.empty \<lparr>strings = Map.empty, strvs = Map.empty\<rparr>"
  have al: "(Map.empty ++ lang_aliases ?fresh) k = None" for k by (simp add: init_def)
  have s: "spec_structural ''xx'' = ''xx''" by (simp add: structural_eval)
  have n: "normalize_lang_code Map.empty ?fresh ''xx'' = ''xx''"
    using normalize_lang_code_eval [OF s al] by simp
  have e: "languages_names ?fresh = Map.empty" by (simp add: init_def)
  have names: "languages_names (add_lang Map.empty ?fresh ''xx'' (Some []) True False) = [''xx'' \<mapsto> []]"
    by (simp add: languages_names_add_lang n e)
  have a: "get_lang_name (\<lambda>c. Inl (Raised ''KeyError'')) ?fresh ''en'' = Inl (Raised ''KeyError'')"
    by (simp add: get_lang_name_def)
  have b: "get_lang_name (\<lambda>c. Inr None) ?fresh [] = Inr []"
    by (simp add: get_lang_name_def dict_get_def init_def)
  have c: "get_lang_name (\<lambda>c. Inr None) (add_lang Map.empty ?fresh ''xx'' (Some []) True False) ''xx'' = Inr []"
    by (simp add: get_lang_name_def dict_get_def names)
  from a b c show ?thesis by (intro conjI)
qed

text \<open>
  C7. \<open>format_url\<close> returns scheme, host, path and query in this order: the scheme is
  \<open>http://\<close> exactly when the host starts with \<open>localhost:\<close> or the \<open>http\<close> flag is set, and
  \<open>https://\<close> otherwise; the path is given a leading \<open>/\<close> when it has none; the query is
  \<open>?\<close> followed by the encoded \<open>key=value\<close> pairs joined with \<open>&\<close> when there are
  parameters, and nothing when there are none. The two examples of the specification hold.
\<close>

theorem format_url_composition:
  "format_url url path params http =
     (if startswith url ''localhost:'' \<or> http then ''http://'' else ''https://'')
     @ url
     @ (if startswith path ''/'' then path else ''/'' @ path)
     @ (if params = [] then []
        else ''?'' @ join ''&'' (map (\<lambda>(k, v). quote_plus k @ ''='' @ quote_plus v) params))
   \<and> startswith (if startswith path ''/'' then path else ''/'' @ path) ''/''
   \<and> format_url ''libretranslate.com'' ''translate'' [(''q'', ''hi'')] False
       = ''https://libretranslate.com/translate?q=hi''
   \<and> format_url ''localhost:5000'' ''detect'' [] False = ''http://localhost:5000/detect''"
proof -
  have gen: "format_url url path params http =
     (if startswith url ''localhost:'' \<or> http then ''http://'' else ''https://'')
     @ url
     @ (if startswith path ''/'' then path else ''/'' @ path)
     @ (if params = [] then []
        else ''?'' @ join ''&'' (map (\<lambda>(k, v). quote_plus k @ ''='' @ quote_plus v) params))"
    using urlencode_Nil_iff [of params]
    by (simp add: format_url_def Let_def) (simp add: urlencode_def urlencode_loop_map)
  have sl: "startswith (if startswith path ''/'' then path else ''/'' @ path) ''/''"
    by (simp add: startswith_def)
  have q: "quote_plus ''q'' = ''q''" "quote_plus ''hi'' = ''hi''"
    by (simp_all add: quote_plus_def quote_byte_def always_safe_def)
  have e1: "format_url ''libretranslate.com'' ''translate'' [(''q'', ''hi'')] False
       = ''https://libretranslate.com/translate?q=hi''"
    by (simp add: format_url_def Let_def urlencode_def startswith_def q)
  have e2: "format_url ''localhost:5000'' ''detect'' [] False = ''http://localhost:5000/detect''"
    by (simp add: format_url_def Let_def urlencode_def startswith_def)
  from gen sl e1 e2 show ?thesis by (intro conjI)
qed

theorem format_url_composition_witness:
  "format_url ''example.org'' ''/api/v1'' [(''q'', ''a b&c''), (''to'', ''zh-CN'')] True
     = ''http://example.org/api/v1?q=a+b%26c&to=zh-CN''"
proof -
  have q: "quote_plus ''q'' = ''q''" "quote_plus ''a b&c'' = ''a+b%26c''"
          "quote_plus ''to'' = ''to''" "quote_plus ''zh-CN'' = ''zh-CN''"
    by (simp_all add: quote_plus_def quote_byte_def always_safe_def hex_digit_def)
  show ?thesis
    using format_url_composition [of "''example.org''" "''/api/v1''" "[(''q'', ''a b&c''), (''to'', ''zh-CN'')]" True]
    by (simp add: startswith_def q)
qed

text \<open>
  C8. When the stored \<open>src-langs\<close> value is empty, or the key was never written,
  \<open>src_langs\<close> is \<open>['en', 'fr', 'es', 'de']\<close>; \<open>reset_src_langs\<close> stores the empty list,
  after which \<open>src_langs\<close> is that default again.
\<close>

theorem src_langs_default:
  "(get_strv (settings p) ''src-langs'' = [] \<longrightarrow> src_langs p = [''en'', ''fr'', ''es'', ''de''])
   \<and> (strvs (settings p) ''src-langs'' = None \<longrightarrow> src_langs p = [''en'', ''fr'', ''es'', ''de''])
   \<and> get_strv (settings (reset_src_langs p)) ''src-langs'' = []
   \<and> src_langs (reset_src_langs p) = [''en'', ''fr'', ''es'', ''de'']"
  by (simp add: src_langs_def reset_src_langs_def set_src_langs_def get_strv_def set_strv_def
      defaults_src_langs_def)

theorem src_langs_default_witness:
  "strvs (settings (init Map.empty \<lparr>strings = Map.empty, strvs = Map.empty\<rparr>)) ''src-langs'' = None
   \<and> src_langs (init Map.empty \<lparr>strings = Map.empty, strvs = Map.empty\<rparr>) = [''en'', ''fr'', ''es'', ''de'']
   \<and> src_langs (set_src_langs (init Map.empty \<lparr>strings = Map.empty, strvs = Map.empty\<rparr>) [''pt'']) = [''pt'']
   \<and> src_langs (reset_src_langs (set_src_langs (init Map.empty \<lparr>strings = Map.empty, strvs = Map.empty\<rparr>) [''pt'']))
       = [''en'', ''fr'', ''es'', ''de'']"
  using src_langs_default [of "init Map.empty \<lparr>strings = Map.empty, strvs = Map.empty\<rparr>"]
    src_langs_default [of "set_src_langs (init Map.empty \<lparr>strings = Map.empty, strvs = Map.empty\<rparr>) [''pt'']"]
  by (simp add: init_def src_langs_def set_src_langs_def get_strv_def set_strv_def)

text \<open>
  C9 (as amended). After any sequence of \<open>add_lang\<close> calls on a fresh provider, whatever
  the alias tables and the codes, every key of the nonstandard map differs from the
  original stored under it and is the normalization of that original. If moreover the
  codes added are ASCII and every target of the merged alias table is ASCII and left
  unchanged by \<open>normalize_lang_code\<close>, then every code in \<open>languages\<close> and \<open>tts_languages\<close>
  is ASCII and a fixed point of \<open>normalize_lang_code\<close>.
\<close>

theorem add_langs_registry_invariant:
  assumes "p' = add_langs G (init aliases store) calls"
  shows "(\<forall>k orig. nonstandard_langs p' k = Some orig
             \<longrightarrow> k \<noteq> orig \<and> k = normalize_lang_code G p' orig)
       \<and> ((\<forall>v \<in> ran (G ++ aliases). is_ascii v \<and> normalize_lang_code G p' v = v)
            \<and> (\<forall>c \<in> set calls. is_ascii (fst c))
           \<longrightarrow> (\<forall>c \<in> set (languages p') \<union> set (tts_languages p').
                  is_ascii c \<and> normalize_lang_code G p' c = c))"
proof -
  let ?p = "init aliases store"
  let ?N = "normalize_lang_code G ?p"
  have N: "normalize_lang_code G p' x = ?N x" for x
    unfolding assms(1) by simp
  have al: "lang_aliases ?p = aliases" by (simp add: init_def)
  have b: "k \<noteq> orig \<and> k = normalize_lang_code G p' orig" if "nonstandard_langs p' k = Some orig" for k orig
  proof -
    from that have "List.find (\<lambda>orig. ?N orig = k \<and> orig \<noteq> k) (map fst calls) = Some orig"
      unfolding assms(1) nonstandard_langs_fresh .
    then have "?N orig = k \<and> orig \<noteq> k" by (auto simp: find_Some_iff)
    then show ?thesis unfolding N by auto
  qed
  have a: "\<forall>c \<in> set (languages p') \<union> set (tts_languages p'). is_ascii c \<and> normalize_lang_code G p' c = c"
    if fixed0: "\<forall>v \<in> ran (G ++ aliases). is_ascii v \<and> normalize_lang_code G p' v = v"
   and asc: "\<forall>c \<in> set calls. is_ascii (fst c)"
  proof -
    have fixed: "\<forall>v \<in> ran (G ++ lang_aliases ?p). is_ascii v \<and> ?N v = v"
      using fixed0 unfolding N al .
    then have fx: "\<forall>v \<in> ran (G ++ lang_aliases ?p). ?N v = v"
      and av: "\<forall>v \<in> ran (G ++ lang_aliases ?p). is_ascii v" by blast+
    have idem: "?N (?N x) = ?N x" for x
      using fx by (rule normalize_lang_code_idem_aux)
    have ascN: "is_ascii (?N x)" if "is_ascii x" for x
      using that av by (rule is_ascii_normalize_lang_code)
    have "set (languages p') \<subseteq> ?N ` fst ` set calls"
      unfolding assms(1) using languages_add_langs [of G ?p calls] by (simp add: init_def)
    moreover have "set (tts_languages p') \<subseteq> ?N ` fst ` set calls"
      unfolding assms(1) using tts_languages_add_langs [of G ?p calls] by (simp add: init_def)
    ultimately have sub: "set (languages p') \<union> set (tts_languages p') \<subseteq> ?N ` fst ` set calls"
      by blast
    show ?thesis
    proof
      fix c assume "c \<in> set (languages p') \<union> set (tts_languages p')"
      with sub obtain call where call: "call \<in> set calls" and c: "c = ?N (fst call)"
        by blast
      from asc call have "is_ascii (fst call)" by blast
      then have "is_ascii c" unfolding c by (rule ascN)
      moreover have "?N c = c" unfolding c by (rule idem)
      ultimately show "is_ascii c \<and> normalize_lang_code G p' c = c"
        unfolding N by simp
    qed
  qed
  from a b show ?thesis by blast
qed

theorem add_langs_registry_invariant_witness:
  "ran ([''iw'' \<mapsto> ''he''] ++ Map.empty) = {''he''}
   \<and> is_ascii ''he''
   \<and> normalize_lang_code [''iw'' \<mapsto> ''he'']
        (add_langs [''iw'' \<mapsto> ''he''] (init Map.empty \<lparr>strings = Map.empty, strvs = Map.empty\<rparr>)
           [(''ZH_cn'', None, True, True), (''iw'', Some ''Hebrew'', True, False)]) ''he'' = ''he''
   \<and> is_ascii ''ZH_cn'' \<and> is_ascii ''iw''
   \<and> languages
        (add_langs [''iw'' \<mapsto> ''he''] (init Map.empty \<lparr>strings = Map.empty, strvs = Map.empty\<rparr>)
           [(''ZH_cn'', None, True, True), (''iw'', Some ''Hebrew'', True, False)]) = [''zh-CN'', ''he'']
   \<and> is_ascii ''zh-CN''
   \<and> normalize_lang_code [''iw'' \<mapsto> ''he'']
        (add_langs [''iw'' \<mapsto> ''he''] (init Map.empty \<lparr>strings = Map.empty, strvs = Map.empty\<rparr>)
           [(''ZH_cn'', None, True, True), (''iw'', Some ''Hebrew'', True, False)]) ''zh-CN'' = ''zh-CN''
   \<and> nonstandard_langs
        (add_langs Map.empty
           (init [''iw'' \<mapsto> ''he'', ''he'' \<mapsto> ''heb''] \<lparr>strings = Map.empty, strvs = Map.empty\<rparr>)
           [(''iw'', None, True, False)]) ''he'' = Some ''iw''
   \<and> ''he'' \<noteq> ''iw''
   \<and> ''he'' = normalize_lang_code Map.empty
        (add_langs Map.empty
           (init [''iw'' \<mapsto> ''he'', ''he'' \<mapsto> ''heb''] \<lparr>strings = Map.empty, strvs = Map.empty\<rparr>)
           [(''iw'', None, True, False)]) ''iw''"
proof -
  let ?G = "[''iw'' \<mapsto> ''he'']"
  let ?fresh = "init Map.empty \<lparr>strings = Map.empty, strvs = Map.empty\<rparr>"
  let ?calls = "[(''ZH_cn'', None, True, True), (''iw'', Some ''Hebrew'', True, False)]"
  let ?p' = "add_langs ?G ?fresh ?calls"
  let ?chain = "init [''iw'' \<mapsto> ''he'', ''he'' \<mapsto> ''heb''] \<lparr>strings = Map.empty, strvs = Map.empty\<rparr>"
  let ?q' = "add_langs Map.empty ?chain [(''iw'', None :: string option, True, False)]"
  have tab: "?G ++ lang_aliases ?fresh = ?G" by (simp add: init_def)
  have s1: "spec_structural ''ZH_cn'' = ''zh-CN''" by (simp add: structural_eval)
  have s2: "spec_structural ''iw'' = ''iw''" by (simp add: structural_eval)
  have s3: "spec_structural ''he'' = ''he''" by (simp add: structural_eval)
  have a1: "(?G ++ lang_aliases ?fresh) ''zh-CN'' = None" unfolding tab by simp
  have a2: "(?G ++ lang_aliases ?fresh) ''iw'' = Some ''he''" unfolding tab by simp
  have a3: "(?G ++ lang_aliases ?fresh) ''he'' = None" unfolding tab by simp
  have n1: "normalize_lang_code ?G ?fresh ''ZH_cn'' = ''zh-CN''"
    using normalize_lang_code_eval [OF s1 a1] by simp
  have n2: "normalize_lang_code ?G ?fresh ''iw'' = ''he''"
    using normalize_lang_code_eval [OF s2 a2] by simp
  have n3: "normalize_lang_code ?G ?fresh ''he'' = ''he''"
    using normalize_lang_code_eval [OF s3 a3] by simp
  have r: "ran (?G ++ Map.empty) = {''he''}" by simp
  have asc_he: "is_ascii ''he''" by (simp add: is_ascii_def)
  have asc1: "is_ascii ''ZH_cn''" by (simp add: is_ascii_def)
  have asc2: "is_ascii ''iw''" by (simp add: is_ascii_def)
  have m3: "normalize_lang_code ?G ?p' ''he'' = ''he''"
    unfolding normalize_lang_code_add_langs by (rule n3)
  have fixed: "\<forall>v \<in> ran (?G ++ Map.empty). is_ascii v \<and> normalize_lang_code ?G ?p' v = v"
    unfolding r using asc_he m3 by simp
  have asc: "\<forall>c \<in> set ?calls. is_ascii (fst c)"
    using asc1 asc2 by simp
  have langs: "languages ?p' = [''zh-CN'', ''he'']"
    by (simp add: languages_add_lang n1 n2) (simp add: init_def)
  from add_langs_registry_invariant [OF refl, of ?G Map.empty "\<lparr>strings = Map.empty, strvs = Map.empty\<rparr>" ?calls]
    fixed asc
  have "\<forall>c \<in> set (languages ?p') \<union> set (tts_languages ?p').
          is_ascii c \<and> normalize_lang_code ?G ?p' c = c"
    by blast
  then have z: "is_ascii ''zh-CN''" and zn: "normalize_lang_code ?G ?p' ''zh-CN'' = ''zh-CN''"
    unfolding langs by simp_all
  have c1: "(Map.empty ++ lang_aliases ?chain) ''iw'' = Some ''he''" by (simp add: init_def)
  have k1: "normalize_lang_code Map.empty ?chain ''iw'' = ''he''"
    using normalize_lang_code_eval [OF s2 c1] by simp
  have ns: "nonstandard_langs ?q' ''he'' = Some ''iw''"
    unfolding nonstandard_langs_fresh by (simp add: k1)
  from add_langs_registry_invariant [OF refl, of Map.empty "[''iw'' \<mapsto> ''he'', ''he'' \<mapsto> ''heb'']"
      "\<lparr>strings = Map.empty, strvs = Map.empty\<rparr>" "[(''iw'', None, True, False)]"] ns
  have d1: "''he'' \<noteq> ''iw''" and d2: "''he'' = normalize_lang_code Map.empty ?q' ''iw''"
    by blast+
  from r asc_he m3 asc1 asc2 langs z zn ns d1 d2 show ?thesis by (intro conjI)
qed

text \<open>
  C9 as stated fails in its first part for a provider whose aliases chain: with
  \<open>{'iw': 'he', 'he': 'heb'}\<close>, \<open>add_lang('iw')\<close> puts \<open>he\<close> into \<open>languages\<close>, and \<open>he\<close>
  normalizes to \<open>heb\<close>.
\<close>

theorem add_langs_registry_invariant_counterexample:
  "languages
     (add_langs Map.empty
        (init [''iw'' \<mapsto> ''he'', ''he'' \<mapsto> ''heb''] \<lparr>strings = Map.empty, strvs = Map.empty\<rparr>)
        [(''iw'', None, True, False)]) = [''he'']
   \<and> normalize_lang_code Map.empty
        (add_langs Map.empty
           (init [''iw'' \<mapsto> ''he'', ''he'' \<mapsto> ''heb''] \<lparr>strings = Map.empty, strvs = Map.empty\<rparr>)
           [(''iw'', None, True, False)]) ''he'' \<noteq> ''he''"
proof -
  let ?p = "init [''iw'' \<mapsto> ''he'', ''he'' \<mapsto> ''heb''] \<lparr>strings = Map.empty, strvs = Map.empty\<rparr>"
  have s1: "spec_structural ''iw'' = ''iw''" by (simp add: structural_eval)
  have s2: "spec_structural ''he'' = ''he''" by (simp add: structural_eval)
  have a1: "(Map.empty ++ lang_aliases ?p) ''iw'' = Some ''he''" by (simp add: init_def)
  have a2: "(Map.empty ++ lang_aliases ?p) ''he'' = Some ''heb''" by (simp add: init_def)
  have n1: "normalize_lang_code Map.empty ?p ''iw'' = ''he''"
    using normalize_lang_code_eval [OF s1 a1] by simp
  have n2: "normalize_lang_code Map.empty ?p ''he'' = ''heb''"
    using normalize_lang_code_eval [OF s2 a2] by simp
  have langs: "languages (add_langs Map.empty ?p [(''iw'', None, True, False)]) = [''he'']"
    by (simp add: languages_add_lang n1) (simp add: init_def)
  show ?thesis
    unfolding langs normalize_lang_code_add_langs n2 by simp
qed



end
